theory Spec2Isabelle
  imports Complex_Main "HOL-Library.Multiset"
begin

section \<open>Errors and Python string formatting\<close>

text \<open>
  The exceptions the two modules raise, each with its message, and \<open>KeyboardInterrupt\<close>,
  which the body of the supervision loop of \<open>AsyncDQNAgent.train\<close> catches.
\<close>

datatype error =
    ValueError string
  | NotImplementedError string
  | KeyboardInterrupt

text \<open>\<open>"%s" % n\<close> for an integer \<open>n\<close>: its decimal digits, with a minus sign when negative.\<close>

definition digit_char :: "nat \<Rightarrow> char" where
  "digit_char d = ''0123456789'' ! d"

function str_nat :: "nat \<Rightarrow> string" where
  "str_nat n = (if n < 10 then [digit_char n] else str_nat (n div 10) @ [digit_char (n mod 10)])"
  by pat_completeness auto
termination
  by (relation "measure id") auto

declare str_nat.simps [simp del]

definition str_int :: "int \<Rightarrow> string" where
  "str_int i = (if i < 0 then CHR ''-'' # str_nat (nat (- i)) else str_nat (nat i))"

section \<open>core/experience.py\<close>

subsection \<open>The standard-library collaborators: a bounded deque and \<open>random.sample\<close>\<close>

text \<open>
  \<open>deque(maxlen=n)\<close> raises for a negative \<open>n\<close>. \<open>append\<close> puts the value at the right end
  and, when the deque is then longer than \<open>maxlen\<close>, drops the leftmost element; with
  \<open>maxlen = 0\<close> the appended value itself is dropped.
\<close>

definition deque_append :: "nat \<Rightarrow> 'a list \<Rightarrow> 'a \<Rightarrow> 'a list" where
  "deque_append maxlen xs v = (let ys = xs @ [v] in if length ys > maxlen then tl ys else ys)"

text \<open>
  \<open>random.sample(population, k)\<close> raises \<open>ValueError\<close> unless \<open>0 \<le> k \<le> len(population)\<close>.
  Otherwise it copies the population into a pool and, for \<open>i = 0 .. k-1\<close>, draws
  \<open>j = randbelow(n - i)\<close>, takes \<open>pool[j]\<close> and overwrites that slot with \<open>pool[n-i-1]\<close>.
  The generator is the parameter \<open>rnd\<close>: \<open>rnd i\<close> is the raw value of the \<open>i\<close>-th draw,
  reduced to the range \<open>randbelow\<close> asks for.
  (For large populations CPython draws positions and rejects repeated ones instead; it
  returns elements at pairwise different positions as well.)
\<close>

fun sample_pool :: "(nat \<Rightarrow> nat) \<Rightarrow> 'a list \<Rightarrow> nat \<Rightarrow> nat \<Rightarrow> 'a list" where
  "sample_pool rnd pool i 0 = []"
| "sample_pool rnd pool i (Suc k) =
     (let m = length pool - i;
          j = rnd i mod m
      in pool ! j # sample_pool rnd (pool[j := pool ! (m - 1)]) (Suc i) k)"

definition random_sample :: "(nat \<Rightarrow> nat) \<Rightarrow> 'a list \<Rightarrow> int \<Rightarrow> error + 'a list" where
  "random_sample rnd population k =
     (if \<not> (0 \<le> k \<and> k \<le> int (length population))
      then Inl (ValueError ''Sample larger than population or is negative'')
      else Inr (sample_pool rnd population 0 (nat k)))"

subsection \<open>ExperienceReplay\<close>

record 'a ExperienceReplay =
  memory :: "'a list"
  maxlen :: nat
  batch_size :: int
  min_size :: int

definition ExperienceReplay_init :: "int \<Rightarrow> int \<Rightarrow> int \<Rightarrow> error + 'a ExperienceReplay" where
  "ExperienceReplay_init size_arg min_size_arg batch_size_arg =
     (if min_size_arg < batch_size_arg
      then Inl (ValueError
             (''Minimum replay size must be higher or equal to batch size (Got: ''
              @ str_int batch_size_arg @ '')''))
      else if size_arg < 0
      then Inl (ValueError ''maxlen must be non-negative'')
      else Inr \<lparr> memory = [],
                 maxlen = nat size_arg,
                 batch_size = batch_size_arg,
                 min_size = min (size_arg - batch_size_arg) min_size_arg \<rparr>)"

definition add :: "'a ExperienceReplay \<Rightarrow> 'a \<Rightarrow> 'a ExperienceReplay" where
  "add b v = b\<lparr> memory := deque_append (maxlen b) (memory b) v \<rparr>"

definition sample :: "(nat \<Rightarrow> nat) \<Rightarrow> 'a ExperienceReplay \<Rightarrow> error + 'a list" where
  "sample rnd b = random_sample rnd (memory b) (batch_size b)"

definition size_replay :: "'a ExperienceReplay \<Rightarrow> int" where
  "size_replay b = int (length (memory b))"

definition is_ready :: "'a ExperienceReplay \<Rightarrow> bool" where
  "is_ready b = (size_replay b \<ge> min_size b + batch_size b)"

text \<open>Adding a sequence of values, one \<open>add\<close> call each, oldest first.\<close>

definition add_all :: "'a ExperienceReplay \<Rightarrow> 'a list \<Rightarrow> 'a ExperienceReplay" where
  "add_all b xs = foldl add b xs"

section \<open>agents/async\_dqn.py: the coordinator\<close>

text \<open>
  What \<open>train\<close> does to its collaborators (the graph, the environments, the worker threads,
  the summary writer, the checkpoint saver and the logger), in the order it does it.
\<close>

datatype event =
    BuildTrainGraph
  | EnvCopy nat
  | CreateLearner nat
  | OpenWriter
  | InitVariables
  | LoadWeights
  | StartThread nat
  | Render nat
  | Sleep
  | WriteSummary
  | SaveWeights
  | TargetUpdate
  | LogInfo string
  | CloseWriter
  | CloseLearner nat

record AsyncDQNAgent =
  request_stop :: bool
  trace :: "event list"

definition emit :: "event list \<Rightarrow> AsyncDQNAgent \<Rightarrow> AsyncDQNAgent" where
  "emit es ag = ag\<lparr> trace := trace ag @ es \<rparr>"

text \<open>
  The arguments of \<open>train\<close> that its control flow reads. The optimizer settings, the epsilon
  pool, \<open>gamma\<close> and the batch size are only handed on to the learners.
\<close>

record train_args =
  num_threads :: int
  steps :: int
  target_freq :: int
  log_freq :: int
  render :: bool

text \<open>
  Ctrl+C raises \<open>KeyboardInterrupt\<close> in the coordinator wherever it is delivered. The \<open>try\<close>
  block covers the loop body only (lines 133 to 144): \<open>InBody k\<close> is a delivery inside it,
  after \<open>k\<close> of the body's actions, which the handler catches. \<open>InHandler k j\<close> is such a
  delivery followed by a second one inside the handler (lines 146 and 147), after \<open>j\<close> of its
  two statements; nothing catches that one.
\<close>

datatype ctrl_c = InBody nat | InHandler nat nat

text \<open>
  One pass of the supervision loop sees the worker threads and the shared counter, which
  the workers advance on their own: whether Ctrl+C is delivered while the loop condition
  (line 131) is evaluated, outside the \<open>try\<close> block; whether a thread is alive and the
  counter's value in that condition; the counter's value when the body reads it; and the
  deliveries of Ctrl+C during the body.
\<close>

record poll =
  cond_interrupt :: bool
  alive :: bool
  obs_cond :: int
  obs_body :: int
  interrupt :: "ctrl_c option"

record supervision =
  agent :: AsyncDQNAgent
  last_log_step :: int
  last_target_update :: int

datatype action =
    DoRender nat
  | DoSleep
  | SetLastLog
  | DoWriteSummary
  | DoSaveWeights
  | SetLastTarget
  | DoTargetUpdate

text \<open>
  The body of the loop (lines 133 to 144) as the list of its actions, given the counter
  value \<open>step\<close> it read: rendering when asked for, the log block when \<open>log_freq\<close> observations
  have passed since the last one, the target update when \<open>target_freq\<close> have. Both tests
  use the values from before the pass, since neither block touches the other's variable.
\<close>

definition body_actions :: "train_args \<Rightarrow> nat \<Rightarrow> int \<Rightarrow> supervision \<Rightarrow> action list" where
  "body_actions a n step s =
     (if render a then map DoRender [0..<n] @ [DoSleep] else [])
     @ (if step - last_log_step s \<ge> log_freq a
        then [SetLastLog, DoWriteSummary, DoSaveWeights] else [])
     @ (if step - last_target_update s \<ge> target_freq a
        then [SetLastTarget, DoTargetUpdate] else [])"

fun exec :: "int \<Rightarrow> supervision \<Rightarrow> action \<Rightarrow> supervision" where
  "exec step s (DoRender i) = s\<lparr> agent := emit [Render i] (agent s) \<rparr>"
| "exec step s DoSleep = s\<lparr> agent := emit [Sleep] (agent s) \<rparr>"
| "exec step s SetLastLog = s\<lparr> last_log_step := step \<rparr>"
| "exec step s DoWriteSummary = s\<lparr> agent := emit [WriteSummary] (agent s) \<rparr>"
| "exec step s DoSaveWeights = s\<lparr> agent := emit [SaveWeights] (agent s) \<rparr>"
| "exec step s SetLastTarget = s\<lparr> last_target_update := step \<rparr>"
| "exec step s DoTargetUpdate = s\<lparr> agent := emit [TargetUpdate] (agent s) \<rparr>"

text \<open>
  The handler of \<open>KeyboardInterrupt\<close> (lines 145 to 147): the log line, then the flag.
  \<open>handler_prefix j\<close> is what the first \<open>j\<close> of its two statements do.
\<close>

definition on_interrupt :: "supervision \<Rightarrow> supervision" where
  "on_interrupt s =
     s\<lparr> agent := (emit [LogInfo ''Caught Ctrl+C! Stopping training process.''] (agent s))
                     \<lparr> request_stop := True \<rparr> \<rparr>"

definition handler_prefix :: "nat \<Rightarrow> supervision \<Rightarrow> supervision" where
  "handler_prefix j s =
     (if j = 0 then s
      else if j = 1
      then s\<lparr> agent := emit [LogInfo ''Caught Ctrl+C! Stopping training process.''] (agent s) \<rparr>
      else on_interrupt s)"

text \<open>
  One pass through the body. The first component of the result is the exception that
  leaves the pass, if any: an interrupt inside the body is caught and the pass ends
  normally, an interrupt inside the handler propagates.
\<close>

definition iteration ::
  "train_args \<Rightarrow> nat \<Rightarrow> poll \<Rightarrow> supervision \<Rightarrow> error option \<times> supervision"
where
  "iteration a n p s =
     (let acts = body_actions a n (obs_body p) s
      in case interrupt p of
           None \<Rightarrow> (None, foldl (exec (obs_body p)) s acts)
         | Some (InBody k) \<Rightarrow> (None, on_interrupt (foldl (exec (obs_body p)) s (take k acts)))
         | Some (InHandler k j) \<Rightarrow>
             (Some KeyboardInterrupt,
              handler_prefix j (foldl (exec (obs_body p)) s (take k acts))))"

text \<open>
  The \<open>while\<close> loop over the passes the coordinator gets to make. \<open>None\<close>: every pass of the
  list found a live thread and the counter below \<open>steps\<close>, so the loop is still running.
  \<open>Some (Some e, s)\<close>: the exception \<open>e\<close> left the loop, either from the loop condition or
  from the handler. \<open>Some (None, s)\<close>: the condition was false and the loop ended.
\<close>

fun supervise ::
  "train_args \<Rightarrow> nat \<Rightarrow> poll list \<Rightarrow> supervision \<Rightarrow> (error option \<times> supervision) option"
where
  "supervise a n [] s = None"
| "supervise a n (p # ps) s =
     (if cond_interrupt p then Some (Some KeyboardInterrupt, s)
      else if alive p \<and> obs_cond p < steps a
      then (case iteration a n p s of
              (Some e, s') \<Rightarrow> Some (Some e, s')
            | (None, s') \<Rightarrow> supervise a n ps s')
      else Some (None, s))"

text \<open>
  Lines 86 to 122: the training graph, one environment copy and one learner per thread, the
  summary writer, the initialisation of the variables, the restore when the log directory
  holds a checkpoint, and the start of the threads. The draw of each thread's minimum
  epsilon and its debug line do not reach the control flow and are left out.
\<close>

definition setup_events :: "nat \<Rightarrow> bool \<Rightarrow> event list" where
  "setup_events n checkpoint =
     [BuildTrainGraph]
     @ concat (map (\<lambda>t. [EnvCopy t, CreateLearner t]) [0..<n])
     @ [OpenWriter, InitVariables]
     @ (if checkpoint then [LoadWeights] else [])
     @ map StartThread [0..<n]"

text \<open>Lines 148 to 152, the statements after the loop. They are outside the \<open>try\<close> block.\<close>

definition final_events :: "nat \<Rightarrow> event list" where
  "final_events n =
     [SaveWeights, LogInfo ''Training finished!'', CloseWriter] @ map CloseLearner [0..<n]"

text \<open>
  \<open>train\<close>: the check of \<open>num_threads\<close> comes first (line 80). \<open>checkpoint\<close> says whether a
  checkpoint was found, \<open>obs_counter\<close> is the counter's value when the loop variables are
  initialised, \<open>polls\<close> are the passes of the loop, and \<open>final_interrupt = Some k\<close> is a Ctrl+C
  delivered after the loop, when \<open>k\<close> of the final statements have run. The result is \<open>None\<close>
  while the loop runs, \<open>Inl\<close> with the exception when \<open>train\<close> raises and \<open>Inr ()\<close> when it
  returns. Ctrl+C is delivered from the first evaluation of the loop condition on; the
  statements before the loop run without one.
\<close>

definition train ::
  "train_args \<Rightarrow> bool \<Rightarrow> int \<Rightarrow> poll list \<Rightarrow> nat option \<Rightarrow> AsyncDQNAgent
     \<Rightarrow> ((error + unit) \<times> AsyncDQNAgent) option"
where
  "train a checkpoint obs_counter polls final_interrupt ag =
     (if num_threads a < 1
      then Some (Inl (ValueError (''Number of threads must be >= 1 (Got: ''
                                  @ str_int (num_threads a) @ '').'')), ag)
      else
        let n = nat (num_threads a);
            ag1 = (emit (setup_events n checkpoint) ag)\<lparr> request_stop := False \<rparr>
        in case supervise a n polls
                  \<lparr> agent = ag1, last_log_step = obs_counter, last_target_update = obs_counter \<rparr> of
             None \<Rightarrow> None
           | Some (Some e, s) \<Rightarrow> Some (Inl e, agent s)
           | Some (None, s) \<Rightarrow>
               (case final_interrupt of
                  None \<Rightarrow> Some (Inr (), emit (final_events n) (agent s))
                | Some k \<Rightarrow>
                    Some (Inl KeyboardInterrupt, emit (take k (final_events n)) (agent s))))"

definition AsyncDQNAgent_train_on_batch ::
  "'o \<Rightarrow> 'a \<Rightarrow> 'r \<Rightarrow> bool \<Rightarrow> AsyncDQNAgent \<Rightarrow> (error + unit) \<times> AsyncDQNAgent"
where
  "AsyncDQNAgent_train_on_batch obs actions rewards summarize ag =
     (Inl (NotImplementedError
             ''Training on batch is not supported. Use `train` method instead.''), ag)"

section \<open>agents/async\_dqn.py: the thread learner\<close>

subsection \<open>Helpers from \<open>reinforceflow.misc\<close> and numpy\<close>

text \<open>
  Rewards, action values and \<open>gamma\<close> are Python floats. They are real numbers here: the
  model computes exactly and has neither rounding nor NaN.
\<close>

text \<open>
  Modelled from the spec: \<open>misc.IncrementalAverage\<close>, whose source is not part of the two
  files. It accumulates a running mean: \<open>add(value)\<close> takes one more value into the mean,
  \<open>reset()\<close> returns the mean and resets the accumulator.
\<close>

record IncrementalAverage =
  avg_total :: real
  avg_count :: nat

definition IncrementalAverage_init :: IncrementalAverage where
  "IncrementalAverage_init = \<lparr> avg_total = 0, avg_count = 0 \<rparr>"

definition avg_add :: "IncrementalAverage \<Rightarrow> real \<Rightarrow> IncrementalAverage" where
  "avg_add m v = \<lparr> avg_total = avg_total m + v, avg_count = Suc (avg_count m) \<rparr>"

definition avg_reset :: "IncrementalAverage \<Rightarrow> real \<times> IncrementalAverage" where
  "avg_reset m = ((if avg_count m = 0 then 0 else avg_total m / real (avg_count m)), IncrementalAverage_init)"

text \<open>
  Modelled from the spec: \<open>misc.discount_rewards\<close>, whose source is not part of the two
  files. One backward pass over the rewards: for step \<open>i\<close> counting down from the end,
  \<open>return[i] = reward[i] + gamma * running_total\<close>, where \<open>running_total\<close> starts at the
  bootstrap value and is updated to \<open>return[i]\<close> after each step. \<open>discount_acc\<close> is the
  pass, over the rewards in reverse order, with the returns computed so far in \<open>out\<close>.
\<close>

fun discount_acc :: "real \<Rightarrow> real \<Rightarrow> real list \<Rightarrow> real list \<Rightarrow> real list" where
  "discount_acc gamma running_total [] out = out"
| "discount_acc gamma running_total (r # rs) out =
     (let ret = r + gamma * running_total
      in discount_acc gamma ret rs (ret # out))"

definition discount_rewards :: "real list \<Rightarrow> real \<Rightarrow> real \<Rightarrow> real list" where
  "discount_rewards rewards gamma expected_reward =
     discount_acc gamma expected_reward (rev rewards) []"

text \<open>\<open>np.clip(x, lo, hi)\<close> is \<open>minimum(hi, maximum(x, lo))\<close>.\<close>

definition np_clip :: "real \<Rightarrow> real \<Rightarrow> real \<Rightarrow> real" where
  "np_clip x lo hi = min hi (max x lo)"

text \<open>\<open>np.max\<close> of the action values; numpy raises \<open>ValueError\<close> for an empty array.\<close>

fun np_max :: "real list \<Rightarrow> error + real" where
  "np_max [] =
     Inl (ValueError ''zero-size array to reduction operation maximum which has no identity'')"
| "np_max (x # xs) = Inr (fold max xs x)"

subsection \<open>One batch of \<open>_ThreadDQNLearner.run\<close>\<close>

text \<open>
  The collaborators of a learner: its private environment (state \<open>'e\<close>, observations \<open>'o\<close>),
  its local network (\<open>predict\<close>), the global agent's target network (\<open>target_predict\<close>) and
  its policy (state \<open>'p\<close>). Actions are indices.
\<close>

record ('o, 'e, 'p) collaborators =
  env_reset :: "'e \<Rightarrow> 'o \<times> 'e"
  env_step :: "'e \<Rightarrow> nat \<Rightarrow> ('o \<times> real \<times> bool) \<times> 'e"
  predict :: "'o \<Rightarrow> real list"
  target_predict :: "'o \<Rightarrow> real list"
  select_action :: "'p \<Rightarrow> 'e \<Rightarrow> real list \<Rightarrow> int \<Rightarrow> nat \<times> 'p"

text \<open>
  The variables of \<open>run\<close> that live across batches, with the environment, the policy and the
  global agent's observation counter.
\<close>

record ('o, 'e, 'p) learner =
  obs :: 'o
  terminal :: bool
  reward_accum :: real
  ep_reward :: IncrementalAverage
  ep_q :: IncrementalAverage
  env :: 'e
  policy :: 'p
  obs_counter :: int

record 'o batch =
  batch_obs :: "'o list"
  batch_rewards :: "real list"
  batch_actions :: "nat list"

definition empty_batch :: "'o batch" where
  "empty_batch = \<lparr> batch_obs = [], batch_rewards = [], batch_actions = [] \<rparr>"

text \<open>
  The body of the inner \<open>while\<close> loop (lines 245 to 253): one environment step.
  \<open>increment_obs_counter\<close> of the base agent advances the shared counter by one and
  returns it.
\<close>

definition collect_step ::
  "('o, 'e, 'p) collaborators \<Rightarrow> ('o, 'e, 'p) learner \<times> 'o batch
     \<Rightarrow> ('o, 'e, 'p) learner \<times> 'o batch"
where
  "collect_step c lb =
     (let l = fst lb; b = snd lb;
          current_step = obs_counter l + 1;
          reward_per_action = predict c (obs l);
          sel = select_action c (policy l) (env l) reward_per_action current_step;
          action = fst sel;
          stepped = env_step c (env l) action;
          obs' = fst (fst stepped);
          reward = fst (snd (fst stepped));
          term' = snd (snd (fst stepped))
      in (l\<lparr> obs := obs', terminal := term', reward_accum := reward_accum l + reward,
              env := snd stepped, policy := snd sel, obs_counter := current_step \<rparr>,
          \<lparr> batch_obs = batch_obs b @ [obs l],
            batch_rewards = batch_rewards b @ [np_clip reward (- 1) 1],
            batch_actions = batch_actions b @ [action] \<rparr>))"

function collect ::
  "('o, 'e, 'p) collaborators \<Rightarrow> int \<Rightarrow> ('o, 'e, 'p) learner \<times> 'o batch
     \<Rightarrow> ('o, 'e, 'p) learner \<times> 'o batch"
where
  "collect c bsz lb =
     (if \<not> terminal (fst lb) \<and> int (length (batch_obs (snd lb))) < bsz
      then collect c bsz (collect_step c lb)
      else lb)"
  by pat_completeness auto
termination
  by (relation "measure (\<lambda>(c, bsz, lb). nat (bsz - int (length (batch_obs (snd lb)))))")
     (auto simp: collect_step_def Let_def)

declare collect.simps [simp del]

record ('o, 'e, 'p) batch_result =
  learner_after :: "('o, 'e, 'p) learner"
  batch :: "'o batch"
  expected_reward :: real
  returns :: "real list"

text \<open>
  Lines 239 to 262 of \<open>run\<close>: reset the environment after a terminated episode, collect
  the batch, choose the bootstrap value and turn the stored rewards into returns. The
  returns are what \<open>_train_on_batch\<close> is then called with.
\<close>

definition begin_batch ::
  "('o, 'e, 'p) collaborators \<Rightarrow> ('o, 'e, 'p) learner \<Rightarrow> ('o, 'e, 'p) learner"
where
  "begin_batch c l =
     (if terminal l
      then l\<lparr> terminal := False,
              obs := fst (env_reset c (env l)),
              env := snd (env_reset c (env l)) \<rparr>
      else l)"

definition run_batch ::
  "('o, 'e, 'p) collaborators \<Rightarrow> int \<Rightarrow> real \<Rightarrow> ('o, 'e, 'p) learner
     \<Rightarrow> error + ('o, 'e, 'p) batch_result"
where
  "run_batch c bsz gamma l =
     (let collected = collect c bsz (begin_batch c l, empty_batch);
          l2 = fst collected; b = snd collected
      in if \<not> terminal l2
         then (case np_max (target_predict c (obs l2)) of
                 Inl e \<Rightarrow> Inl e
               | Inr q \<Rightarrow>
                   Inr \<lparr> learner_after = l2\<lparr> ep_q := avg_add (ep_q l2) q \<rparr>,
                         batch = b,
                         expected_reward = q,
                         returns = discount_rewards (batch_rewards b) gamma q \<rparr>)
         else Inr \<lparr> learner_after = l2\<lparr> ep_reward := avg_add (ep_reward l2) (reward_accum l2),
                                           reward_accum := 0 \<rparr>,
                     batch = b,
                     expected_reward = 0,
                     returns = discount_rewards (batch_rewards b) gamma 0 \<rparr>)"

definition ThreadDQNLearner_train_on_batch ::
  "'x list \<Rightarrow> (string \<times> 'y) list \<Rightarrow> ('o, 'e, 'p) learner
     \<Rightarrow> (error + unit) \<times> ('o, 'e, 'p) learner"
where
  "ThreadDQNLearner_train_on_batch args kwargs l =
     (Inl (NotImplementedError ''Use `AsyncDQNAgent.train`.''), l)"

subsection \<open>A toy setting for concrete runs\<close>

text \<open>
  An environment whose state counts the steps of the episode: every step pays the raw reward
  5 and the third step ends the episode. The policy always picks action 0; the target
  network values the two actions at the observation and at 7.
\<close>

definition toy_collaborators :: "(nat, nat, unit) collaborators" where
  "toy_collaborators =
     \<lparr> env_reset = (\<lambda>e. (0, 0)),
       env_step = (\<lambda>e a. ((Suc e, 5, 2 \<le> e), Suc e)),
       predict = (\<lambda>ob. [0, 1]),
       target_predict = (\<lambda>ob. [real ob, 7]),
       select_action = (\<lambda>p e q current_step. (0, p)) \<rparr>"

definition toy_learner :: "(nat, nat, unit) learner" where
  "toy_learner =
     \<lparr> obs = 0, terminal = True, reward_accum = 0,
       ep_reward = IncrementalAverage_init, ep_q = IncrementalAverage_init,
       env = 0, policy = (), obs_counter = 0 \<rparr>"

section \<open>Properties of the replay buffer\<close>

lemma length_deque_append:
  "length (deque_append m xs v) = (if length xs \<ge> m then length xs else Suc (length xs))"
  by (auto simp: deque_append_def Let_def)

lemma deque_append_drop:
  assumes "n = length zs - m"
  shows "deque_append m (drop n zs) x = drop (Suc (length zs) - m) (zs @ [x])"
proof (cases "length zs \<ge> m")
  case True
  then have len: "length (drop n zs) = m" using assms by simp
  have "deque_append m (drop n zs) x = tl (drop n zs @ [x])"
    using len by (simp add: deque_append_def Let_def)
  also have "\<dots> = tl (drop n (zs @ [x]))" using assms by simp
  also have "\<dots> = drop (Suc n) (zs @ [x])" by (simp only: drop_Suc tl_drop)
  also have "Suc n = Suc (length zs) - m" using True assms by simp
  finally show ?thesis .
next
  case False
  then show ?thesis using assms by (simp add: deque_append_def Let_def)
qed

lemma memory_add_all:
  "length (memory b) \<le> maxlen b \<Longrightarrow>
   memory (add_all b xs) = drop (length (memory b @ xs) - maxlen b) (memory b @ xs)
   \<and> maxlen (add_all b xs) = maxlen b
   \<and> batch_size (add_all b xs) = batch_size b
   \<and> min_size (add_all b xs) = min_size b"
proof (induction xs rule: rev_induct)
  case Nil
  then show ?case by (simp add: add_all_def)
next
  case (snoc x xs)
  have step: "add_all b (xs @ [x]) = add (add_all b xs) x" by (simp add: add_all_def)
  from snoc have IH: "memory (add_all b xs) = drop (length (memory b @ xs) - maxlen b) (memory b @ xs)"
    and ml: "maxlen (add_all b xs) = maxlen b"
    and bs: "batch_size (add_all b xs) = batch_size b"
    and ms: "min_size (add_all b xs) = min_size b" by simp_all
  have "memory (add_all b (xs @ [x])) = deque_append (maxlen b) (drop (length (memory b @ xs) - maxlen b) (memory b @ xs)) x"
    by (simp add: step add_def IH ml)
  also have "\<dots> = drop (Suc (length (memory b @ xs)) - maxlen b) ((memory b @ xs) @ [x])"
    by (rule deque_append_drop) simp
  finally show ?case by (simp add: step add_def ml bs ms)
qed

lemma length_sample_pool: "length (sample_pool rnd pool i k) = k"
  by (induction k arbitrary: pool i) (simp_all add: Let_def)

lemma swap_remove_mset:
  assumes "j < m" "m \<le> length pool"
  shows "add_mset (pool ! j) (mset (take (m - 1) (pool[j := pool ! (m - 1)]))) = mset (take m pool)"
proof -
  from assms have m1: "m - 1 < length pool" and Sm: "Suc (m - 1) = m" by simp_all
  have tk: "take m pool = take (m - 1) pool @ [pool ! (m - 1)]"
    using take_Suc_conv_app_nth [OF m1] Sm by simp
  show ?thesis
  proof (cases "j = m - 1")
    case True
    then show ?thesis by (simp add: tk)
  next
    case False
    with assms have jl: "j < length (take (m - 1) pool)" by simp
    have "take (m - 1) (pool[j := pool ! (m - 1)]) = (take (m - 1) pool)[j := pool ! (m - 1)]"
      by (simp add: take_update_swap)
    moreover have "(take (m - 1) pool) ! j = pool ! j" using jl by simp
    moreover have "pool ! j \<in># mset (take (m - 1) pool)"
      using jl by (metis \<open>take (m - 1) pool ! j = pool ! j\<close> nth_mem set_mset_mset)
    ultimately show ?thesis
      using mset_update [OF jl, of "pool ! (m - 1)"] by (simp add: tk)
  qed
qed

lemma mset_sample_pool:
  "i + k \<le> length pool \<Longrightarrow>
   mset (sample_pool rnd pool i k) \<subseteq># mset (take (length pool - i) pool)"
proof (induction k arbitrary: pool i)
  case 0
  then show ?case by simp
next
  case (Suc k)
  define m where "m = length pool - i"
  define j where "j = rnd i mod m"
  define pool' where "pool' = pool[j := pool ! (m - 1)]"
  from Suc.prems have mpos: "0 < m" and mle: "m \<le> length pool" by (simp_all add: m_def)
  then have jm: "j < m" by (simp add: j_def)
  have "Suc i + k \<le> length pool'" using Suc.prems by (simp add: pool'_def)
  from Suc.IH [OF this] have "mset (sample_pool rnd pool' (Suc i) k) \<subseteq># mset (take (m - 1) pool')"
    by (simp add: pool'_def m_def)
  then have "add_mset (pool ! j) (mset (sample_pool rnd pool' (Suc i) k))
             \<subseteq># add_mset (pool ! j) (mset (take (m - 1) pool'))" by simp
  also have "\<dots> = mset (take m pool)"
    unfolding pool'_def by (rule swap_remove_mset [OF jm mle])
  finally show ?case by (simp add: Let_def m_def j_def pool'_def)
qed

lemma random_sample_ok:
  assumes "0 \<le> k" "k \<le> int (length population)"
  shows "\<exists>ys. random_sample rnd population k = Inr ys \<and> int (length ys) = k
              \<and> mset ys \<subseteq># mset population"
proof -
  have "nat k \<le> length population" using assms by simp
  then have "mset (sample_pool rnd population 0 (nat k)) \<subseteq># mset population"
    using mset_sample_pool [of 0 "nat k" population rnd] by simp
  then show ?thesis using assms by (simp add: random_sample_def length_sample_pool)
qed

lemma init_Inr:
  "(ExperienceReplay_init c ms bs = Inr b) =
   (bs \<le> ms \<and> 0 \<le> c \<and>
    b = \<lparr> memory = [], maxlen = nat c, batch_size = bs, min_size = min (c - bs) ms \<rparr>)"
  by (auto simp: ExperienceReplay_init_def)

lemma add_all_fresh:
  assumes "ExperienceReplay_init c ms bs = Inr b0"
  shows "memory (add_all b0 xs) = drop (length xs - nat c) xs"
    and "maxlen (add_all b0 xs) = nat c"
    and "batch_size (add_all b0 xs) = bs"
    and "min_size (add_all b0 xs) = min (c - bs) ms"
  using assms memory_add_all [of b0 xs] by (simp_all add: init_Inr)

lemma distinct_sub_mset:
  assumes sub: "mset ys \<subseteq># mset xs" and dx: "distinct xs"
  shows "distinct ys"
proof -
  have le1: "count (mset ys) a \<le> 1" for a
  proof -
    have "count (mset ys) a \<le> count (mset xs) a" using sub by (rule mset_subset_eq_count)
    also have "\<dots> \<le> 1" using dx by (simp add: distinct_count_atmost_1)
    finally show ?thesis .
  qed
  have "count (mset ys) a = (if a \<in> set ys then 1 else 0)" for a
  proof (cases "a \<in> set ys")
    case True
    then have "0 < count (mset ys) a" by (simp only: count_greater_zero_iff set_mset_mset)
    with le1 [of a] have "count (mset ys) a = 1" by linarith
    with True show ?thesis by simp
  next
    case False
    then show ?thesis by (simp add: count_eq_zero_iff)
  qed
  then show ?thesis by (simp only: distinct_count_atmost_1) simp
qed

lemma sample_ready_ok:
  assumes init: "ExperienceReplay_init c ms bs = Inr b0"
    and bs: "0 \<le> bs" "bs \<le> c"
    and ready: "is_ready (add_all b0 xs)"
  shows "\<exists>ys. sample rnd (add_all b0 xs) = Inr ys \<and> int (length ys) = bs
              \<and> mset ys \<subseteq># mset (memory (add_all b0 xs))
              \<and> (distinct (memory (add_all b0 xs)) \<longrightarrow> distinct ys)"
proof -
  let ?b = "add_all b0 xs"
  from init have "bs \<le> ms" by (simp add: init_Inr)
  from ready have "min (c - bs) ms + bs \<le> int (length (memory ?b))"
    by (simp only: is_ready_def size_replay_def add_all_fresh(3,4) [OF init])
  with bs \<open>bs \<le> ms\<close> have "bs \<le> int (length (memory ?b))" by linarith
  from random_sample_ok [OF bs(1) this, of rnd] obtain ys where
    ys: "random_sample rnd (memory ?b) bs = Inr ys" "int (length ys) = bs"
        "mset ys \<subseteq># mset (memory ?b)" by blast
  have "distinct (memory ?b) \<Longrightarrow> distinct ys"
    by (rule distinct_sub_mset [OF ys(3)])
  moreover have "sample rnd ?b = random_sample rnd (memory ?b) bs"
    by (simp only: sample_def add_all_fresh(3) [OF init])
  ultimately show ?thesis using ys by simp
qed

text \<open>
  Claim C5 says that \<open>sample\<close> succeeds whenever \<open>is_ready\<close> holds, for every buffer the
  constructor accepts. The constructor accepts capacity 3 with batch size 4 and minimum
  size 4; after three additions the buffer reports ready, and \<open>sample\<close> raises
  \<open>ValueError\<close> because the batch is larger than the population.
\<close>

theorem ready_small_capacity_sample_raises:
  "\<exists>b0. (ExperienceReplay_init 3 4 4 :: error + nat ExperienceReplay) = Inr b0
        \<and> is_ready (add_all b0 [1, 2, 3])
        \<and> sample (\<lambda>i. 0) (add_all b0 [1, 2, 3])
            = Inl (ValueError ''Sample larger than population or is negative'')"
  by (simp add: ExperienceReplay_init_def add_all_def add_def deque_append_def is_ready_def
      size_replay_def sample_def random_sample_def)

text \<open>
  Claim C7: a construction whose requested minimum size is at least the batch size stores
  \<open>min (capacity - batch_size) min_size\<close> as its minimum size (the only construction that
  does not return a buffer is the one with a negative capacity, which the deque rejects);
  capacity 10, batch size 4 and requested minimum size 9 store 6.
\<close>

theorem min_size_clamp:
  assumes "bs \<le> ms"
  shows "(if c < 0
          then (ExperienceReplay_init c ms bs :: error + 'a ExperienceReplay)
                 = Inl (ValueError ''maxlen must be non-negative'')
          else \<exists>b. (ExperienceReplay_init c ms bs :: error + 'a ExperienceReplay) = Inr b
                   \<and> min_size b = min (c - bs) ms)
         \<and> (\<exists>b. (ExperienceReplay_init 10 9 4 :: error + 'a ExperienceReplay) = Inr b
                   \<and> min_size b = 6)"
  using assms by (simp add: ExperienceReplay_init_def)

theorem min_size_clamp_witness:
  "(4::int) \<le> 9 \<and>
   (\<exists>b. (ExperienceReplay_init 10 9 4 :: error + nat ExperienceReplay) = Inr b \<and> min_size b = 6)"
  using min_size_clamp [of 4 9 10, where ?'a = nat] by simp

lemma size_after_additions:
  assumes "ExperienceReplay_init c ms bs = Inr b0"
  shows "size_replay (add_all b0 ys) = min (int (length ys)) c"
proof -
  from assms have "0 \<le> c" by (simp add: init_Inr)
  then show ?thesis by (simp add: size_replay_def add_all_fresh(1) [OF assms])
qed

text \<open>
  Claim C6 names the configured \<open>min_size\<close> in the readiness condition. A buffer built with
  capacity 10, minimum size 9 and batch size 4 stores the minimum size 6; after eleven
  additions it holds ten values and \<open>is_ready\<close> is true, although 10 is below 9 + 4.
\<close>

theorem readiness_configured_min_size_counterexample:
  "(ExperienceReplay_init 10 9 4 :: error + nat ExperienceReplay)
     = Inr \<lparr> memory = [], maxlen = 10, batch_size = 4, min_size = 6 \<rparr>
   \<and> is_ready (add_all \<lparr> memory = [], maxlen = 10, batch_size = 4, min_size = 6 \<rparr>
                 [1, 2, 3, 4, 5, 6, 7, 8, 9, 10, 11 :: nat])
   \<and> \<not> (size_replay (add_all \<lparr> memory = [], maxlen = 10, batch_size = 4, min_size = 6 \<rparr>
                 [1, 2, 3, 4, 5, 6, 7, 8, 9, 10, 11 :: nat]) \<ge> 9 + 4)"
  by (simp add: ExperienceReplay_init_def add_all_def add_def deque_append_def is_ready_def
      size_replay_def)

text \<open>
  Claim C6, with the stored minimum size in the readiness condition: a buffer built with
  capacity \<open>c\<close>, requested minimum size \<open>ms\<close> and batch size \<open>bs \<le> ms\<close> receives \<open>c + k\<close> values,
  \<open>k > 0\<close>. After any number \<open>n\<close> of these additions its size is the smaller of \<open>n\<close> and \<open>c\<close>, so
  it never exceeds \<open>c\<close>, and \<open>is_ready\<close> holds exactly when that size is at least the stored
  minimum size \<open>min (c - bs) ms\<close> plus \<open>bs\<close>. After all of them the buffer holds exactly the
  values after the first \<open>k\<close>, so the \<open>k\<close> oldest additions are gone (when the values are
  pairwise distinct, none of them occurs in the buffer), and the buffer is ready.
\<close>

theorem fifo_eviction:
  assumes ge: "bs \<le> ms"
    and init: "ExperienceReplay_init c ms bs = Inr b0"
    and k: "0 < k"
    and len: "int (length xs) = c + int k"
  shows "(\<forall>n \<le> length xs.
            size_replay (add_all b0 (take n xs)) = min (int n) c
            \<and> size_replay (add_all b0 (take n xs)) \<le> c
            \<and> min_size (add_all b0 (take n xs)) = min (c - bs) ms
            \<and> batch_size (add_all b0 (take n xs)) = bs
            \<and> (is_ready (add_all b0 (take n xs))
                  \<longleftrightarrow> min (int n) c \<ge> min (c - bs) ms + bs))
       \<and> memory (add_all b0 xs) = drop k xs
       \<and> (distinct xs \<longrightarrow> (\<forall>i < k. xs ! i \<notin> set (memory (add_all b0 xs))))
       \<and> is_ready (add_all b0 xs)"
proof -
  from init have c0: "0 \<le> c" by (simp add: init_Inr)
  with len have lk: "length xs - nat c = k" and kl: "k \<le> length xs" by linarith+
  have prefix: "size_replay (add_all b0 (take n xs)) = min (int n) c
            \<and> size_replay (add_all b0 (take n xs)) \<le> c
            \<and> min_size (add_all b0 (take n xs)) = min (c - bs) ms
            \<and> batch_size (add_all b0 (take n xs)) = bs
            \<and> (is_ready (add_all b0 (take n xs))
                  \<longleftrightarrow> min (int n) c \<ge> min (c - bs) ms + bs)"
    if "n \<le> length xs" for n
  proof -
    from that have ln: "length (take n xs) = n" by simp
    have sz: "size_replay (add_all b0 (take n xs)) = min (int n) c"
      using size_after_additions [OF init, of "take n xs"] by (simp only: ln)
    show ?thesis
      by (simp add: sz is_ready_def add_all_fresh(3,4) [OF init])
  qed
  have mem: "memory (add_all b0 xs) = drop k xs"
    by (simp add: add_all_fresh(1) [OF init] lk)
  have absent: "xs ! i \<notin> set (drop k xs)" if "distinct xs" "i < k" for i
  proof -
    from that kl have "xs ! i \<in> set (take k xs)"
      by (metis length_take min.absorb2 nth_mem nth_take)
    moreover from that(1) have "set (take k xs) \<inter> set (drop k xs) = {}"
      by (metis append_take_drop_id distinct_append)
    ultimately show ?thesis by blast
  qed
  have "size_replay (add_all b0 xs) = c"
    using size_after_additions [OF init, of xs] len k by simp
  then have ready: "is_ready (add_all b0 xs)"
    by (simp add: is_ready_def add_all_fresh(3,4) [OF init])
  from prefix mem absent ready show ?thesis by (simp only: mem) blast
qed

theorem fifo_eviction_witness:
  "\<exists>b0. (ExperienceReplay_init 10 9 4 :: error + nat ExperienceReplay) = Inr b0
     \<and> memory (add_all b0 [1, 2, 3, 4, 5, 6, 7, 8, 9, 10, 11]) = [2, 3, 4, 5, 6, 7, 8, 9, 10, 11]
     \<and> (1::nat) \<notin> set (memory (add_all b0 [1, 2, 3, 4, 5, 6, 7, 8, 9, 10, 11]))
     \<and> \<not> is_ready (add_all b0 [1, 2, 3, 4, 5, 6, 7, 8, 9])
     \<and> is_ready (add_all b0 [1, 2, 3, 4, 5, 6, 7, 8, 9, 10])
     \<and> is_ready (add_all b0 [1, 2, 3, 4, 5, 6, 7, 8, 9, 10, 11])"
proof -
  let ?xs = "[1, 2, 3, 4, 5, 6, 7, 8, 9, 10, 11 :: nat]"
  obtain b0 where b0: "(ExperienceReplay_init 10 9 4 :: error + nat ExperienceReplay) = Inr b0"
    by (simp add: ExperienceReplay_init_def)
  have "(4::int) \<le> 9" "0 < (1::nat)" "int (length ?xs) = 10 + int 1" by simp_all
  note inst = fifo_eviction [OF this(1) b0 this(2,3)]
  from inst have mem: "memory (add_all b0 ?xs) = [2, 3, 4, 5, 6, 7, 8, 9, 10, 11]"
    and absent: "1 \<notin> set (memory (add_all b0 ?xs))"
    and full: "is_ready (add_all b0 ?xs)"
    by auto
  from inst have pre: "\<forall>n \<le> length ?xs. is_ready (add_all b0 (take n ?xs))
                  \<longleftrightarrow> min (int n) 10 \<ge> min (10 - 4) 9 + (4::int)"
    by blast
  from pre [rule_format, of 9] have nine: "\<not> is_ready (add_all b0 [1, 2, 3, 4, 5, 6, 7, 8, 9])"
    by simp
  from pre [rule_format, of 10] have ten: "is_ready (add_all b0 [1, 2, 3, 4, 5, 6, 7, 8, 9, 10])"
    by simp
  from b0 mem absent nine ten full show ?thesis by blast
qed

text \<open>
  Claim C10: with a capacity \<open>c\<close> below the batch size (and a requested minimum size that
  passes the check) the constructor returns a buffer whose stored minimum size is negative;
  once \<open>c\<close> values have been added \<open>is_ready\<close> holds although fewer than \<open>batch_size\<close> values
  are present, and \<open>sample\<close> raises \<open>ValueError\<close>.
\<close>

theorem capacity_below_batch:
  assumes "0 \<le> c" "c < bs" "bs \<le> ms"
  shows "\<exists>b0. (ExperienceReplay_init c ms bs :: error + 'a ExperienceReplay) = Inr b0
          \<and> min_size b0 < 0
          \<and> (\<forall>xs. c \<le> int (length xs) \<longrightarrow>
                is_ready (add_all b0 xs)
                \<and> size_replay (add_all b0 xs) < bs
                \<and> sample rnd (add_all b0 xs)
                    = Inl (ValueError ''Sample larger than population or is negative''))"
proof -
  obtain b0 :: "'a ExperienceReplay" where b0: "ExperienceReplay_init c ms bs = Inr b0"
    using assms by (simp add: init_Inr)
  have neg: "min_size b0 < 0" using b0 assms by (auto simp: init_Inr)
  have "is_ready (add_all b0 xs) \<and> size_replay (add_all b0 xs) < bs
        \<and> sample rnd (add_all b0 xs) = Inl (ValueError ''Sample larger than population or is negative'')"
    if "c \<le> int (length xs)" for xs
    using that assms
    by (simp add: is_ready_def size_replay_def sample_def random_sample_def
        add_all_fresh [OF b0])
  with b0 neg show ?thesis by blast
qed

theorem capacity_below_batch_witness:
  "\<exists>b0. (ExperienceReplay_init 3 4 4 :: error + nat ExperienceReplay) = Inr b0
          \<and> min_size b0 < 0 \<and> is_ready (add_all b0 [1, 2, 3])
          \<and> size_replay (add_all b0 [1, 2, 3]) < 4"
proof -
  have "(0::int) \<le> 3" "(3::int) < 4" "(4::int) \<le> 4" by simp_all
  from capacity_below_batch [OF this, where ?'a = nat] obtain b0 where
    b0: "(ExperienceReplay_init 3 4 4 :: error + nat ExperienceReplay) = Inr b0" "min_size b0 < 0"
    and all: "\<forall>xs. 3 \<le> int (length xs) \<longrightarrow> is_ready (add_all b0 xs) \<and> size_replay (add_all b0 xs) < 4"
    by blast
  from all have "is_ready (add_all b0 [1, 2, 3]) \<and> size_replay (add_all b0 [1, 2, 3]) < 4" by simp
  with b0 show ?thesis by blast
qed

section \<open>Properties of the thread learner\<close>

subsection \<open>Discounted returns\<close>

lemma discount_acc_append:
  "discount_acc g t (xs @ ys) out =
   discount_acc g (foldl (\<lambda>tot r. r + g * tot) t xs) ys (discount_acc g t xs out)"
  by (induction xs arbitrary: t out) (simp_all add: Let_def)

lemma discount_acc_head:
  "xs \<noteq> [] \<Longrightarrow> \<exists>rest. discount_acc g t xs out = foldl (\<lambda>tot r. r + g * tot) t xs # rest"
proof (induction xs arbitrary: t out)
  case Nil
  then show ?case by simp
next
  case (Cons r rs)
  show ?case
  proof (cases "rs = []")
    case True
    then show ?thesis by (simp add: Let_def)
  next
    case False
    from Cons.IH [OF False, of "r + g * t" "(r + g * t) # out"]
    show ?thesis by (simp add: Let_def)
  qed
qed

lemma length_discount_acc: "length (discount_acc g t xs out) = length xs + length out"
  by (induction xs arbitrary: t out) (simp_all add: Let_def)

lemma length_discount_rewards: "length (discount_rewards rs g b) = length rs"
  by (simp add: discount_rewards_def length_discount_acc)

lemma discount_rewards_Nil: "discount_rewards [] g b = []"
  by (simp add: discount_rewards_def)

lemma discount_rewards_Cons:
  "discount_rewards (r # rs) g b =
   (r + g * (case discount_rewards rs g b of [] \<Rightarrow> b | x # _ \<Rightarrow> x)) # discount_rewards rs g b"
proof -
  let ?T = "foldl (\<lambda>tot r. r + g * tot) b (rev rs)"
  have unfold: "discount_rewards (r # rs) g b = (r + g * ?T) # discount_rewards rs g b"
    by (simp add: discount_rewards_def discount_acc_append Let_def)
  have "(case discount_rewards rs g b of [] \<Rightarrow> b | x # _ \<Rightarrow> x) = ?T"
  proof (cases "rs = []")
    case True
    then show ?thesis by (simp add: discount_rewards_def)
  next
    case False
    then have "rev rs \<noteq> []" by simp
    from discount_acc_head [OF this, of g b "[]"] show ?thesis
      by (auto simp: discount_rewards_def)
  qed
  with unfold show ?thesis by simp
qed

lemma discount_rewards_last:
  "rs \<noteq> [] \<Longrightarrow> last (discount_rewards rs g b) = last rs + g * b"
proof (induction rs)
  case Nil
  then show ?case by simp
next
  case (Cons r rs)
  show ?case
  proof (cases "rs = []")
    case True
    then show ?thesis by (simp add: discount_rewards_Cons discount_rewards_Nil)
  next
    case False
    then have "discount_rewards rs g b \<noteq> []"
      using length_discount_rewards [of rs g b] by auto
    with Cons.IH [OF False] False show ?thesis by (simp add: discount_rewards_Cons)
  qed
qed

lemma discount_rewards_nth:
  "Suc i < length rs \<Longrightarrow>
   discount_rewards rs g b ! i = rs ! i + g * discount_rewards rs g b ! Suc i"
proof (induction rs arbitrary: i)
  case Nil
  then show ?case by simp
next
  case (Cons r rs)
  show ?case
  proof (cases i)
    case 0
    from Cons.prems have "length (discount_rewards rs g b) \<noteq> 0"
      by (simp add: length_discount_rewards 0)
    then obtain x xs where "discount_rewards rs g b = x # xs"
      by (cases "discount_rewards rs g b") auto
    then show ?thesis by (simp add: 0 discount_rewards_Cons)
  next
    case (Suc j)
    with Cons.prems have "Suc j < length rs" by simp
    from Cons.IH [OF this] show ?thesis by (simp add: Suc discount_rewards_Cons)
  qed
qed

lemma run_batch_returns:
  "run_batch c bsz g l = Inr res \<Longrightarrow>
   returns res = discount_rewards (batch_rewards (batch res)) g (expected_reward res)"
  by (auto simp: run_batch_def Let_def split: if_splits sum.splits)

text \<open>
  Claim C2: the returns computed from the stored rewards \<open>rs\<close>, the discount factor \<open>g\<close> and
  the bootstrap value \<open>b\<close> are as many as the rewards; the last return is the last reward
  plus \<open>g * b\<close>, and each earlier return is its reward plus \<open>g\<close> times the next return.
  Rewards \<open>[1, 1, 1]\<close> with \<open>g = 0.9\<close> and \<open>b = 0\<close> give \<open>[2.71, 1.9, 1.0]\<close>. These are the
  returns a batch of \<open>run\<close> hands to the gradient step. Rewards and returns are real numbers
  here, so the arithmetic is exact.
\<close>

theorem discount_rewards_recurrence:
  "length (discount_rewards rs g b) = length rs
   \<and> (rs \<noteq> [] \<longrightarrow> last (discount_rewards rs g b) = last rs + g * b)
   \<and> (\<forall>i. Suc i < length rs \<longrightarrow>
         discount_rewards rs g b ! i = rs ! i + g * discount_rewards rs g b ! Suc i)
   \<and> discount_rewards [1, 1, 1] (9 / 10) 0 = [271 / 100, 19 / 10, 1]
   \<and> (\<forall>res. run_batch c bsz g l = Inr res \<longrightarrow>
         returns res = discount_rewards (batch_rewards (batch res)) g (expected_reward res))"
proof (intro conjI allI impI)
  show "length (discount_rewards rs g b) = length rs" by (rule length_discount_rewards)
  show "last (discount_rewards rs g b) = last rs + g * b" if "rs \<noteq> []"
    using that by (rule discount_rewards_last)
  show "discount_rewards rs g b ! i = rs ! i + g * discount_rewards rs g b ! Suc i"
    if "Suc i < length rs" for i
    using that by (rule discount_rewards_nth)
  show "discount_rewards [1, 1, 1] (9 / 10) 0 = [271 / 100, 19 / 10, 1]"
    by (simp add: discount_rewards_def Let_def)
  show "returns res = discount_rewards (batch_rewards (batch res)) g (expected_reward res)"
    if "run_batch c bsz g l = Inr res" for res
    using that by (rule run_batch_returns)
qed

theorem discount_rewards_recurrence_witness:
  "[1, 2, 3] \<noteq> ([]::real list) \<and> Suc 0 < length [1, 2, 3::real]
   \<and> last (discount_rewards [1, 2, 3] (1 / 2) 4) = 3 + (1 / 2) * 4
   \<and> discount_rewards [1, 2, 3] (1 / 2) 4 ! 0
       = [1, 2, 3] ! 0 + (1 / 2) * discount_rewards [1, 2, 3] (1 / 2) 4 ! Suc 0
   \<and> (\<exists>res. run_batch toy_collaborators 2 (9 / 10) toy_learner = Inr res
          \<and> batch_rewards (batch res) = [1, 1] \<and> expected_reward res = 7
          \<and> returns res = [757 / 100, 73 / 10])"
proof -
  have run: "\<exists>res. run_batch toy_collaborators 2 (9 / 10) toy_learner = Inr res
          \<and> batch_rewards (batch res) = [1, 1] \<and> expected_reward res = 7"
    by (simp add: run_batch_def collect.simps collect_step_def toy_collaborators_def
        toy_learner_def begin_batch_def empty_batch_def np_clip_def Let_def)
  then obtain res where res: "run_batch toy_collaborators 2 (9 / 10) toy_learner = Inr res"
    "batch_rewards (batch res) = [1, 1]" "expected_reward res = 7" by blast
  from discount_rewards_recurrence [of "[1, 1]" "9 / 10" 7 toy_collaborators 2 toy_learner] res
  have "returns res = discount_rewards [1, 1] (9 / 10) 7" by simp
  then have "returns res = [757 / 100, 73 / 10]"
    by (simp add: discount_rewards_def Let_def)
  with res have second: "\<exists>res. run_batch toy_collaborators 2 (9 / 10) toy_learner = Inr res
          \<and> batch_rewards (batch res) = [1, 1] \<and> expected_reward res = 7
          \<and> returns res = [757 / 100, 73 / 10]" by blast
  from discount_rewards_recurrence [of "[1, 2, 3]" "1 / 2" 4 toy_collaborators 2 toy_learner]
  have "last (discount_rewards [1, 2, 3] (1 / 2) 4) = 3 + (1 / 2) * 4
   \<and> discount_rewards [1, 2, 3] (1 / 2) 4 ! 0
       = [1, 2, 3] ! 0 + (1 / 2) * discount_rewards [1, 2, 3] (1 / 2) 4 ! Suc 0"
    by simp
  with second show ?thesis by simp
qed

subsection \<open>The batch loop\<close>



lemma np_max_Max: "xs \<noteq> [] \<Longrightarrow> np_max xs = Inr (Max (set xs))"
proof (cases xs)
  case Nil
  assume "xs \<noteq> []"
  with Nil show ?thesis by simp
next
  case (Cons x ys)
  have "np_max (x # ys) = Inr (fold max ys x)" by simp
  also have "fold max ys x = Max (set (x # ys))" by (rule Max.set_eq_fold [symmetric])
  finally show ?thesis by (simp only: Cons)
qed

lemma collect_continue:
  "\<not> terminal (fst lb) \<Longrightarrow> int (length (batch_obs (snd lb))) < bsz \<Longrightarrow>
   collect c bsz lb = collect c bsz (collect_step c lb)"
  by (subst collect.simps) simp

lemma collect_stop:
  "\<not> (\<not> terminal (fst lb) \<and> int (length (batch_obs (snd lb))) < bsz) \<Longrightarrow>
   collect c bsz lb = lb"
  by (subst collect.simps) auto





lemma collect_stops:
  "terminal (fst (collect c bsz lb)) \<or> bsz \<le> int (length (batch_obs (snd (collect c bsz lb))))"
proof (induction c bsz lb rule: collect.induct)
  case (1 c bsz lb)
  show ?case
  proof (cases "\<not> terminal (fst lb) \<and> int (length (batch_obs (snd lb))) < bsz")
    case True
    from "1.IH" [OF True] True show ?thesis by (simp add: collect_continue)
  next
    case False
    then show ?thesis by (simp only: collect_stop [OF False]) auto
  qed
qed



lemma run_batch_not_terminal:
  assumes "\<not> terminal (fst (collect c bsz (begin_batch c l, empty_batch)))"
    and "target_predict c (obs (fst (collect c bsz (begin_batch c l, empty_batch)))) \<noteq> []"
  shows "run_batch c bsz g l =
     (let collected = collect c bsz (begin_batch c l, empty_batch);
          l2 = fst collected;
          q = Max (set (target_predict c (obs l2)))
      in Inr \<lparr> learner_after = l2\<lparr> ep_q := avg_add (ep_q l2) q \<rparr>,
               batch = snd collected,
               expected_reward = q,
               returns = discount_rewards (batch_rewards (snd collected)) g q \<rparr>)"
  using assms(1) np_max_Max [OF assms(2)] by (simp add: run_batch_def Let_def)

lemma run_batch_terminal:
  assumes "terminal (fst (collect c bsz (begin_batch c l, empty_batch)))"
  shows "run_batch c bsz g l =
     (let collected = collect c bsz (begin_batch c l, empty_batch);
          l2 = fst collected
      in Inr \<lparr> learner_after = l2\<lparr> ep_reward := avg_add (ep_reward l2) (reward_accum l2),
                                     reward_accum := 0 \<rparr>,
               batch = snd collected,
               expected_reward = 0,
               returns = discount_rewards (batch_rewards (snd collected)) g 0 \<rparr>)"
  using assms by (simp add: run_batch_def Let_def)

text \<open>
  Claim C3: let \<open>l2\<close> be the learner's variables when the collection of a batch stops. If the
  episode has not terminated, the batch is full, and the bootstrap value is the maximum of
  the target network's action values at the final observation; it is added to the running
  max-Q average, and the episode-reward average and the reward accumulator are left alone.
  If the episode has terminated, the bootstrap value is 0, the accumulated unclipped reward
  is added to the running episode-reward average and the accumulator is reset to 0.
\<close>

theorem bootstrap_value:
  fixes c :: "('o, 'e, 'p) collaborators"
  shows
  "(let l2 = fst (collect c bsz (begin_batch c l, empty_batch))
    in (\<not> terminal l2 \<longrightarrow>
          bsz \<le> int (length (batch_obs (snd (collect c bsz (begin_batch c l, empty_batch)))))
          \<and> (target_predict c (obs l2) \<noteq> [] \<longrightarrow>
               (\<exists>res. run_batch c bsz g l = Inr res
                  \<and> expected_reward res = Max (set (target_predict c (obs l2)))
                  \<and> ep_q (learner_after res) = avg_add (ep_q l2) (expected_reward res)
                  \<and> ep_reward (learner_after res) = ep_reward l2
                  \<and> reward_accum (learner_after res) = reward_accum l2)))
     \<and> (terminal l2 \<longrightarrow>
          (\<exists>res. run_batch c bsz g l = Inr res
             \<and> expected_reward res = 0
             \<and> ep_reward (learner_after res) = avg_add (ep_reward l2) (reward_accum l2)
             \<and> reward_accum (learner_after res) = 0
             \<and> ep_q (learner_after res) = ep_q l2)))"
proof -
  let ?l2 = "fst (collect c bsz (begin_batch c l, empty_batch))"
  have full: "bsz \<le> int (length (batch_obs (snd (collect c bsz (begin_batch c l, empty_batch)))))"
    if "\<not> terminal ?l2"
    using that collect_stops [of c bsz "(begin_batch c l, empty_batch)"] by blast
  have boot: "\<exists>res. run_batch c bsz g l = Inr res
                  \<and> expected_reward res = Max (set (target_predict c (obs ?l2)))
                  \<and> ep_q (learner_after res) = avg_add (ep_q ?l2) (expected_reward res)
                  \<and> ep_reward (learner_after res) = ep_reward ?l2
                  \<and> reward_accum (learner_after res) = reward_accum ?l2"
    if "\<not> terminal ?l2" "target_predict c (obs ?l2) \<noteq> []"
    by (simp add: run_batch_not_terminal [OF that] Let_def)
  have ended: "\<exists>res. run_batch c bsz g l = Inr res
             \<and> expected_reward res = 0
             \<and> ep_reward (learner_after res) = avg_add (ep_reward ?l2) (reward_accum ?l2)
             \<and> reward_accum (learner_after res) = 0
             \<and> ep_q (learner_after res) = ep_q ?l2"
    if "terminal ?l2"
    by (simp add: run_batch_terminal [OF that] Let_def)
  show ?thesis unfolding Let_def using full boot ended by blast
qed

theorem bootstrap_value_witness:
  "(\<exists>res. run_batch toy_collaborators 2 (9 / 10) toy_learner = Inr res
          \<and> expected_reward res = 7
          \<and> ep_q (learner_after res) = \<lparr> avg_total = 7, avg_count = 1 \<rparr>
          \<and> reward_accum (learner_after res) = 10)
   \<and> (\<exists>res. run_batch toy_collaborators 5 (9 / 10) toy_learner = Inr res
          \<and> expected_reward res = 0
          \<and> ep_reward (learner_after res) = \<lparr> avg_total = 15, avg_count = 1 \<rparr>
          \<and> reward_accum (learner_after res) = 0)"
proof -
  let ?c = toy_collaborators and ?l = toy_learner
  have two: "fst (collect ?c 2 (begin_batch ?c ?l, empty_batch))
       = \<lparr> obs = 2, terminal = False, reward_accum = 10,
           ep_reward = IncrementalAverage_init, ep_q = IncrementalAverage_init,
           env = 2, policy = (), obs_counter = 2 \<rparr>"
    by (simp add: collect.simps collect_step_def toy_collaborators_def toy_learner_def
        begin_batch_def empty_batch_def np_clip_def Let_def)
  have five: "fst (collect ?c 5 (begin_batch ?c ?l, empty_batch))
       = \<lparr> obs = 3, terminal = True, reward_accum = 15,
           ep_reward = IncrementalAverage_init, ep_q = IncrementalAverage_init,
           env = 3, policy = (), obs_counter = 3 \<rparr>"
    by (simp add: collect.simps collect_step_def toy_collaborators_def toy_learner_def
        begin_batch_def empty_batch_def np_clip_def Let_def)
  have tp: "target_predict ?c 2 = [2, 7]" by (simp add: toy_collaborators_def)
  from bootstrap_value [of ?c 2 ?l "9 / 10"] have first: "\<exists>res. run_batch ?c 2 (9 / 10) ?l = Inr res
          \<and> expected_reward res = 7
          \<and> ep_q (learner_after res) = \<lparr> avg_total = 7, avg_count = 1 \<rparr>
          \<and> reward_accum (learner_after res) = 10"
    by (auto simp: two tp Let_def avg_add_def IncrementalAverage_init_def)
  from bootstrap_value [of ?c 5 ?l "9 / 10"] have second: "\<exists>res. run_batch ?c 5 (9 / 10) ?l = Inr res
          \<and> expected_reward res = 0
          \<and> ep_reward (learner_after res) = \<lparr> avg_total = 15, avg_count = 1 \<rparr>
          \<and> reward_accum (learner_after res) = 0"
    by (auto simp: five Let_def avg_add_def IncrementalAverage_init_def)
  from first second show ?thesis by blast
qed

section \<open>Properties of the coordinator\<close>

subsection \<open>The supervision loop\<close>

lemma exec_request_stop: "request_stop (agent (exec step s act)) = request_stop (agent s)"
  by (cases act) (simp_all add: emit_def)

lemma foldl_exec_request_stop:
  "request_stop (agent (foldl (exec step) s acts)) = request_stop (agent s)"
  by (induction acts arbitrary: s) (simp_all add: exec_request_stop)

lemma iteration_caught:
  assumes "\<forall>k j. interrupt p \<noteq> Some (InHandler k j)"
  shows "fst (iteration a n p s) = None
       \<and> request_stop (agent (snd (iteration a n p s)))
           = (interrupt p \<noteq> None \<or> request_stop (agent s))"
proof (cases "interrupt p")
  case None
  then show ?thesis by (simp add: iteration_def Let_def foldl_exec_request_stop)
next
  case (Some c)
  show ?thesis
  proof (cases c)
    case (InBody k)
    with Some show ?thesis
      by (simp add: iteration_def Let_def on_interrupt_def emit_def foldl_exec_request_stop)
  next
    case (InHandler k j)
    with Some assms show ?thesis by simp
  qed
qed

lemma supervise_caught:
  assumes "\<forall>p \<in> set polls. \<not> cond_interrupt p \<and> (\<forall>k j. interrupt p \<noteq> Some (InHandler k j))"
  shows "(supervise a n polls s \<noteq> None
            \<longleftrightarrow> (\<exists>p \<in> set polls. \<not> alive p \<or> steps a \<le> obs_cond p))
       \<and> (\<forall>r s'. supervise a n polls s = Some (r, s') \<longrightarrow> r = None)"
  using assms
proof (induction polls arbitrary: s)
  case Nil
  then show ?case by simp
next
  case (Cons p ps)
  from Cons.prems have quiet: "\<not> cond_interrupt p" "\<forall>k j. interrupt p \<noteq> Some (InHandler k j)"
    and rest: "\<forall>p \<in> set ps. \<not> cond_interrupt p \<and> (\<forall>k j. interrupt p \<noteq> Some (InHandler k j))"
    by simp_all
  obtain s1 where it: "iteration a n p s = (None, s1)"
    using iteration_caught [OF quiet(2), of a n s] by (cases "iteration a n p s") simp
  show ?case
  proof (cases "alive p \<and> obs_cond p < steps a")
    case True
    then have "supervise a n (p # ps) s = supervise a n ps s1"
      using quiet(1) it by simp
    with Cons.IH [OF rest, of s1] True show ?thesis by (auto simp: not_less)
  next
    case False
    then have "supervise a n (p # ps) s = Some (None, s)" using quiet(1) by auto
    with False show ?thesis by (auto simp: not_less)
  qed
qed

lemma train_returns_after_final_save:
  assumes "1 \<le> num_threads a"
    and "\<forall>p \<in> set polls. \<not> cond_interrupt p \<and> (\<forall>k j. interrupt p \<noteq> Some (InHandler k j))"
  shows "(train a ck oc polls None ag \<noteq> None
            \<longleftrightarrow> (\<exists>p \<in> set polls. \<not> alive p \<or> steps a \<le> obs_cond p))
       \<and> (\<forall>r ag'. train a ck oc polls None ag = Some (r, ag') \<longrightarrow>
             r = Inr ()
             \<and> (\<exists>pre. trace ag' =
                   pre @ [SaveWeights, LogInfo ''Training finished!'', CloseWriter]
                       @ map CloseLearner [0..<nat (num_threads a)]))"
proof -
  let ?n = "nat (num_threads a)"
  let ?s0 = "\<lparr> agent = (emit (setup_events ?n ck) ag)\<lparr> request_stop := False \<rparr>,
               last_log_step = oc, last_target_update = oc \<rparr>"
  note sup = supervise_caught [OF assms(2), of a ?n ?s0]
  show ?thesis
  proof (cases "supervise a ?n polls ?s0")
    case None
    with sup assms(1) show ?thesis by (simp add: train_def Let_def)
  next
    case (Some rs)
    obtain r s' where rs: "rs = (r, s')" by (cases rs)
    with Some sup have "r = None" by blast
    with Some rs have tr: "train a ck oc polls None ag = Some (Inr (), emit (final_events ?n) (agent s'))"
      using assms(1) by (simp add: train_def Let_def)
    have "trace (emit (final_events ?n) (agent s')) = trace (agent s') @ final_events ?n"
      by (simp add: emit_def)
    with tr Some sup show ?thesis by (auto simp: final_events_def)
  qed
qed

text \<open>
  Claim C1 says that every way out of the supervision loop ends with the final save of the
  checkpoint and the closing of the writer, a keyboard interrupt included. After one
  ordinary pass, Ctrl+C delivered while the loop condition is evaluated leaves \<open>train\<close>
  with \<open>KeyboardInterrupt\<close>: the trace holds the set-up and nothing else, neither a save of
  the weights nor the closing of the writer. The same happens when the loop has ended
  and Ctrl+C is delivered before the final save begins.
\<close>

theorem interrupt_outside_try_skips_final_save:
  "train \<lparr> num_threads = 2, steps = 100, target_freq = 50, log_freq = 50, render = False \<rparr>
     False 0
     [\<lparr> cond_interrupt = False, alive = True, obs_cond = 0, obs_body = 5, interrupt = None \<rparr>,
      \<lparr> cond_interrupt = True, alive = True, obs_cond = 6, obs_body = 9, interrupt = None \<rparr>]
     None \<lparr> request_stop = False, trace = [] \<rparr>
   = Some (Inl KeyboardInterrupt,
       \<lparr> request_stop = False,
         trace = [BuildTrainGraph, EnvCopy 0, CreateLearner 0, EnvCopy 1, CreateLearner 1,
                  OpenWriter, InitVariables, StartThread 0, StartThread 1] \<rparr>)
   \<and> train \<lparr> num_threads = 2, steps = 100, target_freq = 50, log_freq = 50, render = False \<rparr>
     False 0
     [\<lparr> cond_interrupt = False, alive = True, obs_cond = 0, obs_body = 5, interrupt = None \<rparr>,
      \<lparr> cond_interrupt = False, alive = False, obs_cond = 6, obs_body = 9, interrupt = None \<rparr>]
     (Some 0) \<lparr> request_stop = False, trace = [] \<rparr>
   = Some (Inl KeyboardInterrupt,
       \<lparr> request_stop = False,
         trace = [BuildTrainGraph, EnvCopy 0, CreateLearner 0, EnvCopy 1, CreateLearner 1,
                  OpenWriter, InitVariables, StartThread 0, StartThread 1] \<rparr>)"
  by (simp add: train_def Let_def setup_events_def final_events_def emit_def iteration_def
      body_actions_def upt_rec numeral_2_eq_2)

lemma train_caught_interrupt_example:
  "train \<lparr> num_threads = 2, steps = 10, target_freq = 3, log_freq = 4, render = True \<rparr> True 0
     [\<lparr> cond_interrupt = False, alive = True, obs_cond = 0, obs_body = 5, interrupt = None \<rparr>,
      \<lparr> cond_interrupt = False, alive = True, obs_cond = 6, obs_body = 9,
        interrupt = Some (InBody 4) \<rparr>,
      \<lparr> cond_interrupt = False, alive = False, obs_cond = 9, obs_body = 9, interrupt = None \<rparr>]
     None \<lparr> request_stop = False, trace = [] \<rparr>
   = Some (Inr (),
       \<lparr> request_stop = True,
         trace = [BuildTrainGraph, EnvCopy 0, CreateLearner 0, EnvCopy 1, CreateLearner 1,
                  OpenWriter, InitVariables, LoadWeights, StartThread 0, StartThread 1,
                  Render 0, Render 1, Sleep, WriteSummary, SaveWeights, TargetUpdate,
                  Render 0, Render 1, Sleep,
                  LogInfo ''Caught Ctrl+C! Stopping training process.'',
                  SaveWeights, LogInfo ''Training finished!'', CloseWriter,
                  CloseLearner 0, CloseLearner 1] \<rparr>)"
  by (simp add: train_def Let_def setup_events_def final_events_def emit_def iteration_def
      body_actions_def on_interrupt_def upt_rec numeral_2_eq_2)

subsection \<open>Rejected calls\<close>

lemma str_int_0: "str_int 0 = ''0''"
  by (simp add: str_int_def str_nat.simps digit_char_def)

lemma str_int_4: "str_int 4 = ''4''"
  by (simp add: str_int_def str_nat.simps digit_char_def)

text \<open>
  Claim C8: \<open>train\<close> called with fewer than one thread raises \<open>ValueError\<close> with the agent
  unchanged, so that no graph, environment copy, learner or writer has been created; the
  constructor of the replay buffer raises \<open>ValueError\<close> when the minimum size is below the
  batch size. Both messages name the offending setting.
\<close>

theorem configuration_errors_raise:
  "(num_threads a < 1 \<longrightarrow>
      train a ck oc polls fi ag
        = Some (Inl (ValueError (''Number of threads must be >= 1 (Got: ''
                                 @ str_int (num_threads a) @ '').'')), ag))
   \<and> (ms < bs \<longrightarrow>
        (ExperienceReplay_init c ms bs :: error + 'a ExperienceReplay)
          = Inl (ValueError (''Minimum replay size must be higher or equal to batch size (Got: ''
                             @ str_int bs @ '')'')))"
  by (simp add: train_def ExperienceReplay_init_def)

theorem configuration_errors_raise_witness:
  "train \<lparr> num_threads = 0, steps = 10, target_freq = 3, log_freq = 4, render = False \<rparr> False 0
       [\<lparr> cond_interrupt = False, alive = True, obs_cond = 0, obs_body = 5, interrupt = None \<rparr>]
       None \<lparr> request_stop = False, trace = [] \<rparr>
     = Some (Inl (ValueError ''Number of threads must be >= 1 (Got: 0).''),
             \<lparr> request_stop = False, trace = [] \<rparr>)
   \<and> (ExperienceReplay_init 10 3 4 :: error + nat ExperienceReplay)
       = Inl (ValueError ''Minimum replay size must be higher or equal to batch size (Got: 4)'')"
  using configuration_errors_raise [of "\<lparr> num_threads = 0, steps = 10, target_freq = 3, log_freq = 4, render = False \<rparr>"
              False 0
              "[\<lparr> cond_interrupt = False, alive = True, obs_cond = 0, obs_body = 5,
                  interrupt = None \<rparr>]"
              None "\<lparr> request_stop = False, trace = [] \<rparr>" 3 4 10, where ?'a = nat]
  by (simp add: str_int_0 str_int_4)

text \<open>
  Claim C9: \<open>train_on_batch\<close> of the asynchronous agent and of a thread learner raise
  \<open>NotImplementedError\<close> for every input, leave the state as it was, and name the \<open>train\<close>
  entry point in the message.
\<close>

theorem train_on_batch_unsupported:
  "AsyncDQNAgent_train_on_batch ob actions rewards summarize ag
     = (Inl (NotImplementedError
               ''Training on batch is not supported. Use `train` method instead.''), ag)
   \<and> ThreadDQNLearner_train_on_batch args kwargs l
       = (Inl (NotImplementedError ''Use `AsyncDQNAgent.train`.''), l)
   \<and> (\<exists>msg pre suf. fst (AsyncDQNAgent_train_on_batch ob actions rewards summarize ag)
                        = Inl (NotImplementedError msg)
                     \<and> msg = pre @ ''`train`'' @ suf)
   \<and> (\<exists>msg pre suf. fst (ThreadDQNLearner_train_on_batch args kwargs l)
                        = Inl (NotImplementedError msg)
                     \<and> msg = pre @ ''`AsyncDQNAgent.train`'' @ suf)"
proof (intro conjI)
  show "AsyncDQNAgent_train_on_batch ob actions rewards summarize ag
     = (Inl (NotImplementedError
               ''Training on batch is not supported. Use `train` method instead.''), ag)"
    by (simp add: AsyncDQNAgent_train_on_batch_def)
  show "ThreadDQNLearner_train_on_batch args kwargs l
       = (Inl (NotImplementedError ''Use `AsyncDQNAgent.train`.''), l)"
    by (simp add: ThreadDQNLearner_train_on_batch_def)
  have "fst (AsyncDQNAgent_train_on_batch ob actions rewards summarize ag)
          = Inl (NotImplementedError
                   ''Training on batch is not supported. Use `train` method instead.'')
        \<and> ''Training on batch is not supported. Use `train` method instead.''
          = ''Training on batch is not supported. Use '' @ ''`train`'' @ '' method instead.''"
    by (simp add: AsyncDQNAgent_train_on_batch_def)
  then show "\<exists>msg pre suf. fst (AsyncDQNAgent_train_on_batch ob actions rewards summarize ag)
                        = Inl (NotImplementedError msg)
                     \<and> msg = pre @ ''`train`'' @ suf"
    by blast
  have "fst (ThreadDQNLearner_train_on_batch args kwargs l)
          = Inl (NotImplementedError ''Use `AsyncDQNAgent.train`.'')
        \<and> ''Use `AsyncDQNAgent.train`.'' = ''Use '' @ ''`AsyncDQNAgent.train`'' @ ''.''"
    by (simp add: ThreadDQNLearner_train_on_batch_def)
  then show "\<exists>msg pre suf. fst (ThreadDQNLearner_train_on_batch args kwargs l)
                        = Inl (NotImplementedError msg)
                     \<and> msg = pre @ ''`AsyncDQNAgent.train`'' @ suf"
    by blast
qed

end
